theory Spec2Isabelle
  imports Main
begin

section \<open>Python values used by \<^verbatim>\<open>generate_migration_txs.py\<close>\<close>

text \<open>
  A Python \<^verbatim>\<open>str\<close> is a sequence of Unicode code points; it is modelled as a list of
  natural numbers. \<open>py\<close> turns an ASCII literal of the source into such a string.
\<close>

type_synonym py_str = "nat list"

definition py :: "string \<Rightarrow> py_str" where
  "py s = map of_char s"

text \<open>
  \<^verbatim>\<open>str.isspace\<close> for one code point: the characters CPython treats as whitespace
  (U+0009..U+000D, U+001C..U+0020, U+0085, U+00A0, U+1680, U+2000..U+200A, U+2028,
  U+2029, U+202F, U+205F, U+3000).
\<close>

definition isspace :: "nat \<Rightarrow> bool" where
  "isspace c \<longleftrightarrow>
     (9 \<le> c \<and> c \<le> 13) \<or> (28 \<le> c \<and> c \<le> 32) \<or> c = 133 \<or> c = 160 \<or> c = 5760
     \<or> (8192 \<le> c \<and> c \<le> 8202) \<or> c = 8232 \<or> c = 8233 \<or> c = 8239 \<or> c = 8287
     \<or> c = 12288"

text \<open>\<^verbatim>\<open>s.strip()\<close>: leading and trailing whitespace removed.\<close>

definition strip :: "py_str \<Rightarrow> py_str" where
  "strip s = rev (dropWhile isspace (rev (dropWhile isspace s)))"

text \<open>\<^verbatim>\<open>str(n)\<close> for a Python integer: decimal digits, with a minus sign when negative.\<close>

fun digits :: "nat \<Rightarrow> py_str" where
  "digits n = (if n < 10 then [48 + n] else digits (n div 10) @ [48 + n mod 10])"

declare digits.simps [simp del]

definition str_int :: "int \<Rightarrow> py_str" where
  "str_int n = (if n < 0 then 45 # digits (nat (- n)) else digits (nat n))"

text \<open>\<^verbatim>\<open>sep.join(xs)\<close>.\<close>

fun join :: "py_str \<Rightarrow> py_str list \<Rightarrow> py_str" where
  "join sep [] = []"
| "join sep [x] = x"
| "join sep (x # y # ys) = x @ sep @ join sep (y # ys)"

text \<open>
  The value handed to \<^verbatim>\<open>json.dump\<close>: strings, lists and dicts (as association lists
  in insertion order). The content of a written file is modelled by this value.
\<close>

datatype json = JStr py_str | JArr "json list" | JObj "(py_str \<times> json) list"

datatype py_error = IndexError

section \<open>Module-level constants\<close>

definition token_ids :: "int list" where
  "token_ids = [5959, 5961, 6335, 6524, 4593, 5603, 5597, 4613, 5596, 5418, 6336, 5451,
     6088, 4997, 6301, 4345, 6769, 502, 6179, 6346, 6351, 6511, 6378, 5447, 6397, 6452,
     6136, 6734, 6430, 3601, 5595, 204, 6106, 6554, 6459, 6427, 6341, 5618, 6396, 195,
     6107, 5186, 327, 3802, 6457, 4554, 6530, 5510, 6163, 6304, 6699, 3884, 6617, 6513,
     4141, 6391, 3993, 108, 6613, 420, 3818, 5604, 6135, 3178, 3111, 4390, 4240, 6517,
     4995, 100, 16201, 93, 4496, 6093, 3618, 6515, 3383]"

definition pharaoh_loan :: py_str where
  "pharaoh_loan = py ''0xf6A044c3b2a3373eF2909E2474f3229f23279B5F''"

definition xpharaoh_loan :: py_str where
  "xpharaoh_loan = py ''0x6Bf2Fe80D245b06f6900848ec52544FBdE6c8d2C''"

definition portfolio_factory :: py_str where
  "portfolio_factory = py ''0x52d43C377e498980135C8F2E858f120A18Ea96C2''"

section \<open>The external tool\<close>

text \<open>
  \<^verbatim>\<open>subprocess.run(argv, capture_output=True, text=True, check=True)\<close> either returns
  the completed process, of which the script reads the decoded standard output, or raises
  \<^verbatim>\<open>CalledProcessError\<close> on a non-zero exit status; the exception is modelled by the text
  that \<^verbatim>\<open>print\<close> shows for it. The tool is taken to be installed and its output to be
  decodable, and writing a file is taken to succeed: the script handles none of these.

  The outside world is a function from the argument vector to the outcome of the call;
  \<open>main\<close> takes one such function for each loop index, since the tool is called once
  in every iteration.
\<close>

datatype proc_result = Completed py_str | CalledProcessError py_str

type_synonym subprocess = "py_str list \<Rightarrow> proc_result"

definition cast_argv :: "int \<Rightarrow> py_str list" where
  "cast_argv token_id =
     [py ''cast'', py ''calldata'', py ''migrateNft(uint256,address,address)'',
      str_int token_id, xpharaoh_loan, portfolio_factory]"

text \<open>
  \<^verbatim>\<open>generate_calldata(token_id)\<close>: the result is the returned value (\<open>None\<close> for Python's
  \<^verbatim>\<open>None\<close>) together with the lines it printed.
\<close>

definition generate_calldata :: "subprocess \<Rightarrow> int \<Rightarrow> py_str option \<times> py_str list" where
  "generate_calldata run token_id =
     (case run (cast_argv token_id) of
        Completed stdout \<Rightarrow> (Some (strip stdout), [])
      | CalledProcessError e \<Rightarrow>
          (None, [py ''Error generating calldata for token '' @ str_int token_id @ py '': '' @ e]))"

section \<open>Building the transaction JSON\<close>

text \<open>
  \<^verbatim>\<open>create_transaction_json(token_ids, calldatas)\<close>. The loop walks
  \<^verbatim>\<open>enumerate(token_ids)\<close> and reads \<^verbatim>\<open>calldatas[i]\<close>, which raises \<^verbatim>\<open>IndexError\<close> when
  \<open>calldatas\<close> is the shorter list.
\<close>

fun transactions_loop :: "nat \<Rightarrow> int list \<Rightarrow> py_str list \<Rightarrow> json list \<Rightarrow> py_error + json list" where
  "transactions_loop i [] calldatas transactions = Inr transactions"
| "transactions_loop i (token_id # rest) calldatas transactions =
     (if i < length calldatas
      then transactions_loop (Suc i) rest calldatas
             (transactions @
                [JObj [(py ''to'', JStr pharaoh_loan),
                       (py ''value'', JStr (py ''0'')),
                       (py ''data'', JStr (calldatas ! i))]])
      else Inl IndexError)"

definition create_transaction_json :: "int list \<Rightarrow> py_str list \<Rightarrow> py_error + json" where
  "create_transaction_json tids calldatas =
     (case transactions_loop 0 tids calldatas [] of
        Inl e \<Rightarrow> Inl e
      | Inr transactions \<Rightarrow>
          Inr (JObj [(py ''chainId'', JStr (py ''43114'')),
                     (py ''transactions'', JArr transactions)]))"

section \<open>The main loop\<close>

text \<open>
  The state of \<open>main\<close>: its three local variables, the files written so far in the order
  of writing (name and content; a later entry of the same name replaces the earlier file
  on disk), and the lines printed so far.
\<close>

record state =
  file_count :: nat
  batch_token_ids :: "int list"
  batch_calldatas :: "py_str list"
  written :: "(py_str \<times> json) list"
  out :: "py_str list"

definition print :: "py_str list \<Rightarrow> state \<Rightarrow> state" where
  "print ls s = s\<lparr>out := out s @ ls\<rparr>"

text \<open>
  One iteration of the \<^verbatim>\<open>for i, token_id in enumerate(token_ids)\<close> loop; \<open>n\<close> is
  \<^verbatim>\<open>len(token_ids)\<close>. \<^verbatim>\<open>not calldata\<close> holds for \<^verbatim>\<open>None\<close> and for the empty string.
\<close>

definition body :: "subprocess \<Rightarrow> nat \<Rightarrow> nat \<Rightarrow> int \<Rightarrow> state \<Rightarrow> py_error + state" where
  "body run n i token_id s =
     (let s1 = print [py ''Processing token ID '' @ str_int token_id @ py '' ('' @
                        str_int (int i + 1) @ py ''/'' @ str_int (int n) @ py '')''] s;
          (calldata, printed) = generate_calldata run token_id;
          s2 = print printed s1;
          skip = Inr (print [py ''Failed to generate calldata for token '' @ str_int token_id @
                               py '', skipping...''] s2)
      in case calldata of
           None \<Rightarrow> skip
         | Some c \<Rightarrow>
             if c = [] then skip
             else
               let s3 = s2\<lparr>batch_token_ids := batch_token_ids s2 @ [token_id],
                           batch_calldatas := batch_calldatas s2 @ [c]\<rparr>
               in if length (batch_token_ids s3) = 5 \<or> int i = int n - 1
                  then
                    (case create_transaction_json (batch_token_ids s3) (batch_calldatas s3) of
                       Inl e \<Rightarrow> Inl e
                     | Inr tx_json \<Rightarrow>
                         let token_list = join (py ''_'') (map str_int (batch_token_ids s3));
                             filename = py ''migrate_tokens_'' @ token_list @ py ''.json'';
                             s4 = s3\<lparr>file_count := file_count s3 + 1,
                                     written := written s3 @ [(filename, tx_json)]\<rparr>;
                             s5 = print [py ''Created '' @ filename @ py '' with '' @
                                           str_int (int (length (batch_token_ids s4))) @
                                           py '' transactions''] s4
                         in Inr (s5\<lparr>batch_token_ids := [], batch_calldatas := []\<rparr>))
                  else Inr s3)"

fun loop :: "(nat \<Rightarrow> subprocess) \<Rightarrow> nat \<Rightarrow> nat \<Rightarrow> int list \<Rightarrow> state \<Rightarrow> py_error + state" where
  "loop run n i [] s = Inr s"
| "loop run n i (token_id # rest) s =
     (case body (run i) n i token_id s of
        Inl e \<Rightarrow> Inl e
      | Inr s' \<Rightarrow> loop run n (Suc i) rest s')"

text \<open>
  \<open>main\<close>, with the module-level list \<^verbatim>\<open>token_ids\<close> as a parameter; the script runs
  \<open>main token_ids\<close>.
\<close>

definition init :: "int list \<Rightarrow> state" where
  "init tids =
     \<lparr>file_count = 0, batch_token_ids = [], batch_calldatas = [], written = [],
      out = [py ''Generating migration transactions for '' @ str_int (int (length tids)) @
               py '' token IDs...'',
             py ''Grouping 5 token IDs per file...'']\<rparr>"

definition main :: "int list \<Rightarrow> (nat \<Rightarrow> subprocess) \<Rightarrow> py_error + state" where
  "main tids run =
     (case loop run (length tids) 0 tids (init tids) of
        Inl e \<Rightarrow> Inl e
      | Inr s \<Rightarrow>
          Inr (print [10 # py ''Generated '' @ str_int (int (file_count s)) @
                        py '' migration transaction files!'',
                      py ''Each file contains up to 5 transactions.''] s))"

section \<open>Notions used to state the properties\<close>

text \<open>Reading a key of a JSON object.\<close>

definition field :: "py_str \<Rightarrow> json \<Rightarrow> json option" where
  "field k j = (case j of JObj kvs \<Rightarrow> map_of kvs k | JStr v \<Rightarrow> None | JArr vs \<Rightarrow> None)"

text \<open>The transaction entries of a written file.\<close>

definition entries :: "json \<Rightarrow> json list" where
  "entries j = (case field (py ''transactions'') j of
                  Some (JArr txs) \<Rightarrow> txs | Some (JStr v) \<Rightarrow> [] | Some (JObj kvs) \<Rightarrow> [] | None \<Rightarrow> [])"

text \<open>
  The outcome of one call of \<open>generate_calldata\<close> as the loop's test
  \<^verbatim>\<open>if not calldata\<close> sees it: the token ID with its call data when a non-empty string
  came back, \<open>None\<close> when the token is skipped.
\<close>

definition attempt :: "subprocess \<Rightarrow> int \<Rightarrow> (int \<times> py_str) option" where
  "attempt run token_id =
     (case fst (generate_calldata run token_id) of
        None \<Rightarrow> None
      | Some c \<Rightarrow> if c = [] then None else Some (token_id, c))"

text \<open>The outcomes of the iterations \<open>i, i + 1, \<dots>\<close> over the rest of the list, with their indices.\<close>

fun attempts :: "(nat \<Rightarrow> subprocess) \<Rightarrow> nat \<Rightarrow> int list \<Rightarrow> (nat \<times> int \<times> py_str) option list" where
  "attempts run i [] = []"
| "attempts run i (t # ts) = map_option (Pair i) (attempt (run i) t) # attempts run (Suc i) ts"

fun somes :: "'a option list \<Rightarrow> 'a list" where
  "somes [] = []"
| "somes (None # os) = somes os"
| "somes (Some x # os) = x # somes os"

text \<open>
  The grouping the loop performs on a sequence of outcomes, starting from the pending
  batch \<open>b\<close>: a skipped item changes nothing, a kept item joins the batch, and the batch
  is closed when it holds five items or the item was the last of the sequence.
\<close>

fun batches :: "'a list \<Rightarrow> 'a option list \<Rightarrow> 'a list list" where
  "batches b [] = []"
| "batches b (None # os) = batches b os"
| "batches b (Some x # os) =
     (if length b + 1 = 5 \<or> os = [] then (b @ [x]) # batches [] os else batches (b @ [x]) os)"

text \<open>The file written for a batch of token IDs with their call data.\<close>

definition tx_entry :: "py_str \<Rightarrow> json" where
  "tx_entry c = JObj [(py ''to'', JStr pharaoh_loan), (py ''value'', JStr (py ''0'')),
                      (py ''data'', JStr c)]"

definition batch_json :: "py_str list \<Rightarrow> json" where
  "batch_json cs = JObj [(py ''chainId'', JStr (py ''43114'')),
                         (py ''transactions'', JArr (map tx_entry cs))]"

definition batch_filename :: "int list \<Rightarrow> py_str" where
  "batch_filename ts = py ''migrate_tokens_'' @ join (py ''_'') (map str_int ts) @ py ''.json''"

definition file_of :: "(int \<times> py_str) list \<Rightarrow> py_str \<times> json" where
  "file_of g = (batch_filename (map fst g), batch_json (map snd g))"

text \<open>
  The batches of a whole run: each item is the input position of a token ID, the token ID
  and its call data.
\<close>

definition groups :: "int list \<Rightarrow> (nat \<Rightarrow> subprocess) \<Rightarrow> (nat \<times> int \<times> py_str) list list" where
  "groups tids run = batches [] (attempts run 0 tids)"

text \<open>The lines the loop prints.\<close>

definition processing_line :: "nat \<Rightarrow> nat \<Rightarrow> int \<Rightarrow> py_str" where
  "processing_line n i token_id =
     py ''Processing token ID '' @ str_int token_id @ py '' ('' @ str_int (int i + 1) @
     py ''/'' @ str_int (int n) @ py '')''"

definition error_line :: "int \<Rightarrow> py_str \<Rightarrow> py_str" where
  "error_line token_id e =
     py ''Error generating calldata for token '' @ str_int token_id @ py '': '' @ e"

definition skipping_line :: "int \<Rightarrow> py_str" where
  "skipping_line token_id =
     py ''Failed to generate calldata for token '' @ str_int token_id @ py '', skipping...''"

definition created_line :: "(int \<times> py_str) list \<Rightarrow> py_str" where
  "created_line g =
     py ''Created '' @ batch_filename (map fst g) @ py '' with '' @
     str_int (int (length g)) @ py '' transactions''"

text \<open>The loop invariant, and the pending batch as a list of pairs.\<close>

definition batch_ok :: "state \<Rightarrow> bool" where
  "batch_ok s \<longleftrightarrow>
     length (batch_token_ids s) = length (batch_calldatas s) \<and> length (batch_token_ids s) < 5"

definition pending :: "state \<Rightarrow> (int \<times> py_str) list" where
  "pending s = zip (batch_token_ids s) (batch_calldatas s)"

text \<open>
  A stand-in for the external tool, for concrete runs: the call at a loop index listed in
  \<open>failing\<close> exits with a non-zero status, the call at an index listed in \<open>blank\<close>
  prints only a newline, and every other call prints \<^verbatim>\<open>0x\<close>, its token ID argument and a
  newline.
\<close>

definition stub_cast :: "nat list \<Rightarrow> nat list \<Rightarrow> nat \<Rightarrow> subprocess" where
  "stub_cast failing blank i argv =
     (if i \<in> set failing then CalledProcessError (py ''non-zero exit status 1'')
      else if i \<in> set blank then Completed [10]
      else Completed (py ''0x'' @ argv ! 3 @ [10]))"

text \<open>A state in the middle of a run: one file written, one token pending.\<close>

definition mid_run :: state where
  "mid_run =
     \<lparr>file_count = 1, batch_token_ids = [5603], batch_calldatas = [py ''0x5603''],
      written = [file_of [(5959, py ''0x5959''), (5961, py ''0x5961''), (6335, py ''0x6335''),
                          (6524, py ''0x6524''), (4593, py ''0x4593'')]],
      out = []\<rparr>"

section \<open>Building the JSON never fails inside \<open>main\<close>\<close>

lemma transactions_loop_ok:
  "i + length tids \<le> length cds \<Longrightarrow>
   transactions_loop i tids cds acc = Inr (acc @ map tx_entry (take (length tids) (drop i cds)))"
proof (induction tids arbitrary: i acc)
  case Nil
  then show ?case by simp
next
  case (Cons t tids)
  then have "i < length cds" by simp
  then have "drop i cds = cds ! i # drop (Suc i) cds"
    by (simp add: Cons_nth_drop_Suc)
  with Cons show ?case by (simp add: tx_entry_def)
qed

lemma create_transaction_json_ok:
  "length tids = length cds \<Longrightarrow> create_transaction_json tids cds = Inr (batch_json cds)"
  by (simp add: create_transaction_json_def transactions_loop_ok batch_json_def)

section \<open>One iteration\<close>

lemma attempt_Some_iff:
  "attempt run t = Some x \<longleftrightarrow>
   (\<exists>stdout. run (cast_argv t) = Completed stdout \<and> strip stdout \<noteq> [] \<and> x = (t, strip stdout))"
  by (cases "run (cast_argv t)") (auto simp: attempt_def generate_calldata_def)

lemma attempt_None_iff:
  "attempt run t = None \<longleftrightarrow>
   (\<exists>e. run (cast_argv t) = CalledProcessError e) \<or>
   (\<exists>stdout. run (cast_argv t) = Completed stdout \<and> strip stdout = [])"
  by (cases "run (cast_argv t)") (auto simp: attempt_def generate_calldata_def)

lemma strip_Nil_iff: "strip s = [] \<longleftrightarrow> (\<forall>c\<in>set s. isspace c)"
proof
  assume "strip s = []"
  then have d: "\<forall>x\<in>set (dropWhile isspace s). isspace x"
    by (simp add: strip_def dropWhile_eq_Nil_conv)
  have "set s = set (takeWhile isspace s) \<union> set (dropWhile isspace s)"
    by (metis set_append takeWhile_dropWhile_id)
  with d show "\<forall>c\<in>set s. isspace c"
    by (auto dest: set_takeWhileD)
next
  assume "\<forall>c\<in>set s. isspace c"
  then show "strip s = []"
    by (auto simp: strip_def dropWhile_eq_Nil_conv dest: set_dropWhileD)
qed

text \<open>
  What \<open>strip\<close> does: the string is whitespace, the result, whitespace; a non-empty result
  neither begins nor ends with whitespace.
\<close>

lemma strip_spec:
  "\<exists>pre post. s = pre @ strip s @ post \<and> (\<forall>c\<in>set pre. isspace c) \<and>
     (\<forall>c\<in>set post. isspace c) \<and>
     (strip s \<noteq> [] \<longrightarrow> \<not> isspace (hd (strip s)) \<and> \<not> isspace (last (strip s)))"
proof -
  let ?a = "dropWhile isspace s"
  let ?r = "rev ?a"
  let ?pre = "takeWhile isspace s"
  let ?post = "rev (takeWhile isspace ?r)"
  have d: "strip s = rev (dropWhile isspace ?r)" by (simp add: strip_def)
  have "rev (takeWhile isspace ?r @ dropWhile isspace ?r) = rev ?r"
    by (simp only: takeWhile_dropWhile_id)
  then have "rev (dropWhile isspace ?r) @ ?post = ?a"
    by (simp only: rev_append rev_rev_ident)
  then have a: "?a = strip s @ ?post" by (simp only: d)
  have "s = ?pre @ ?a" by simp
  with a have s: "s = ?pre @ strip s @ ?post" by simp
  have pre: "\<forall>c\<in>set ?pre. isspace c" by (auto dest: set_takeWhileD)
  have post: "\<forall>c\<in>set ?post. isspace c" by (auto dest: set_takeWhileD)
  have ends: "\<not> isspace (hd (strip s)) \<and> \<not> isspace (last (strip s))" if ne: "strip s \<noteq> []"
  proof -
    from ne have ne': "dropWhile isspace ?r \<noteq> []" by (simp add: d)
    then have "\<not> isspace (hd (dropWhile isspace ?r))" by (rule hd_dropWhile)
    moreover have "last (strip s) = hd (dropWhile isspace ?r)"
      using ne' by (simp add: d last_rev)
    ultimately have l: "\<not> isspace (last (strip s))" by simp
    have "?a \<noteq> []" using ne a by (metis append_is_Nil_conv)
    then have "\<not> isspace (hd ?a)" by (rule hd_dropWhile)
    moreover have "hd ?a = hd (strip s)"
      using ne a by (metis hd_append2)
    ultimately show ?thesis using l by simp
  qed
  from s pre post ends show ?thesis by blast
qed

lemma body_failed:
  "run (cast_argv t) = CalledProcessError e \<Longrightarrow>
   body run n i t s =
     Inr (s\<lparr>out := out s @ [processing_line n i t, error_line t e, skipping_line t]\<rparr>)"
  by (simp add: body_def generate_calldata_def print_def processing_line_def skipping_line_def
      error_line_def)

lemma body_blank:
  "run (cast_argv t) = Completed stdout \<Longrightarrow> strip stdout = [] \<Longrightarrow>
   body run n i t s = Inr (s\<lparr>out := out s @ [processing_line n i t, skipping_line t]\<rparr>)"
  by (simp add: body_def generate_calldata_def print_def processing_line_def skipping_line_def)

lemma body_skip:
  "attempt run t = None \<Longrightarrow> \<exists>ls. body run n i t s = Inr (s\<lparr>out := out s @ ls\<rparr>)"
  by (auto simp: attempt_None_iff body_failed body_blank)

lemma body_keep:
  assumes "attempt run t = Some x" "length (batch_token_ids s) = length (batch_calldatas s)"
    "length (batch_token_ids s) + 1 \<noteq> 5" "int i \<noteq> int n - 1"
  shows "body run n i t s =
      Inr (s\<lparr>batch_token_ids := batch_token_ids s @ [fst x],
              batch_calldatas := batch_calldatas s @ [snd x],
              out := out s @ [processing_line n i t]\<rparr>)"
  using assms
  by (auto simp: attempt_Some_iff body_def generate_calldata_def print_def processing_line_def
      Let_def)

lemma body_flush:
  assumes "attempt run t = Some x" "length (batch_token_ids s) = length (batch_calldatas s)"
    "length (batch_token_ids s) + 1 = 5 \<or> int i = int n - 1"
  shows "body run n i t s =
      Inr (s\<lparr>file_count := file_count s + 1,
              batch_token_ids := [], batch_calldatas := [],
              written := written s @ [file_of (pending s @ [x])],
              out := out s @ [processing_line n i t, created_line (pending s @ [x])]\<rparr>)"
  using assms
  by (auto simp: attempt_Some_iff body_def generate_calldata_def print_def Let_def
      processing_line_def created_line_def create_transaction_json_ok file_of_def pending_def
      batch_filename_def)

section \<open>The loop\<close>

lemma attempts_Nil_iff: "attempts run i ts = [] \<longleftrightarrow> ts = []"
  by (cases ts) simp_all

lemma batches_map:
  "batches (map f b) (map (map_option f) os) = map (map f) (batches b os)"
proof (induction b os rule: batches.induct)
  case (3 b x os)
  then show ?case by (cases "length b + 1 = 5 \<or> os = []") auto
qed simp_all

lemma loop_batches:
  assumes "batch_ok s" "i + length ts = n"
  shows "\<exists>s'. loop run n i ts s = Inr s' \<and> batch_ok s' \<and>
           written s' =
             written s @ map file_of (batches (pending s) (map (map_option snd) (attempts run i ts))) \<and>
           file_count s' =
             file_count s + length (batches (pending s) (map (map_option snd) (attempts run i ts)))"
  using assms
proof (induction ts arbitrary: i s)
  case Nil
  then show ?case by simp
next
  case (Cons t ts)
  have n: "Suc i + length ts = n" using Cons.prems by simp
  have len: "length (batch_token_ids s) = length (batch_calldatas s)"
    and lt: "length (batch_token_ids s) < 5"
    using Cons.prems by (simp_all add: batch_ok_def)
  have lp: "length (pending s) = length (batch_token_ids s)"
    using len by (simp add: pending_def)
  show ?case
  proof (cases "attempt (run i) t")
    case None
    then obtain ls where b: "body (run i) n i t s = Inr (s\<lparr>out := out s @ ls\<rparr>)"
      using body_skip by blast
    have "batch_ok (s\<lparr>out := out s @ ls\<rparr>)" using Cons.prems by (simp add: batch_ok_def)
    from Cons.IH [OF this n] show ?thesis
      using None b by (simp add: pending_def)
  next
    case (Some x)
    show ?thesis
    proof (cases "length (batch_token_ids s) + 1 = 5 \<or> ts = []")
      case True
      then have "length (batch_token_ids s) + 1 = 5 \<or> int i = int n - 1"
        using Cons.prems by auto
      note b = body_flush [OF Some len this]
      let ?s = "s\<lparr>file_count := file_count s + 1,
              batch_token_ids := [], batch_calldatas := [],
              written := written s @ [file_of (pending s @ [x])],
              out := out s @ [processing_line n i t, created_line (pending s @ [x])]\<rparr>"
      have "batch_ok ?s" by (simp add: batch_ok_def)
      from Cons.IH [OF this n] show ?thesis
        using Some b True lp by (auto simp: pending_def attempts_Nil_iff)
    next
      case False
      then have "int i \<noteq> int n - 1" and ne: "length (batch_token_ids s) + 1 \<noteq> 5"
        using Cons.prems by auto
      note b = body_keep [OF Some len ne this(1)]
      let ?s = "s\<lparr>batch_token_ids := batch_token_ids s @ [fst x],
              batch_calldatas := batch_calldatas s @ [snd x],
              out := out s @ [processing_line n i t]\<rparr>"
      have "batch_ok ?s" using len lt ne by (simp add: batch_ok_def)
      moreover have "pending ?s = pending s @ [x]"
        using len by (simp add: pending_def)
      ultimately show ?thesis
        using Cons.IH [OF _ n, of ?s] Some b False lp by (auto simp: attempts_Nil_iff)
    qed
  qed
qed

section \<open>The whole run\<close>

lemma main_groups:
  "\<exists>s. main tids run = Inr s \<and> written s = map (file_of \<circ> map snd) (groups tids run) \<and>
        file_count s = length (groups tids run)"
proof -
  have "batch_ok (init tids)" by (simp add: batch_ok_def init_def)
  from loop_batches [OF this, of 0 tids "length tids" run]
  obtain s' where s': "loop run (length tids) 0 tids (init tids) = Inr s'"
    "written s' = map file_of (batches [] (map (map_option snd) (attempts run 0 tids)))"
    "file_count s' = length (batches [] (map (map_option snd) (attempts run 0 tids)))"
    by (auto simp: init_def pending_def)
  have "batches [] (map (map_option snd) (attempts run 0 tids)) = map (map snd) (groups tids run)"
    using batches_map [of snd "[]" "attempts run 0 tids"] by (simp add: groups_def)
  with s' show ?thesis
    by (simp add: main_def print_def)
qed

section \<open>The grouping\<close>

lemma batches_lengths:
  "length b < 5 \<Longrightarrow> g \<in> set (batches b os) \<Longrightarrow> 1 \<le> length g \<and> length g \<le> 5"
  by (induction b os rule: batches.induct) (auto split: if_splits)

lemma batches_short_last:
  "length b < 5 \<Longrightarrow> k < length (batches b os) \<Longrightarrow> length (batches b os ! k) < 5 \<Longrightarrow>
   Suc k = length (batches b os)"
proof (induction b os arbitrary: k rule: batches.induct)
  case (3 b x os)
  show ?case
  proof (cases "length b + 1 = 5 \<or> os = []")
    case True
    show ?thesis
    proof (cases k)
      case 0
      with "3.prems" True show ?thesis by (cases "os = []") auto
    next
      case (Suc k')
      with "3.IH"(1) [OF True, of k'] "3.prems" True show ?thesis by simp
    qed
  next
    case False
    with "3.IH"(2) [OF False, of k] "3.prems" show ?thesis by simp
  qed
qed simp_all

lemma batches_concat:
  "length b < 5 \<Longrightarrow>
   \<exists>rest. b @ somes os = concat (batches b os) @ rest \<and> length rest < 5 \<and>
          (rest \<noteq> [] \<longrightarrow> os = [] \<or> last os = None)"
proof (induction b os rule: batches.induct)
  case (1 b)
  then show ?case by simp
next
  case (2 b os)
  then show ?case by (cases "os = []") auto
next
  case (3 b x os)
  show ?case
  proof (cases "length b + 1 = 5 \<or> os = []")
    case True
    from "3.IH"(1) [OF True] obtain rest where
      "[] @ somes os = concat (batches [] os) @ rest" "length rest < 5"
      "rest \<noteq> [] \<longrightarrow> os = [] \<or> last os = None" by auto
    then show ?thesis using True by (cases "os = []") auto
  next
    case False
    then have "length (b @ [x]) < 5" using "3.prems" by simp
    from "3.IH"(2) [OF False this] show ?thesis using False by auto
  qed
qed

lemma batches_count:
  "length b < 5 \<Longrightarrow>
   length (batches b os) =
     (if os \<noteq> [] \<and> last os \<noteq> None then (length b + length (somes os) + 4) div 5
      else (length b + length (somes os)) div 5)"
proof (induction b os rule: batches.induct)
  case (1 b)
  then show ?case by simp
next
  case (2 b os)
  then show ?case by (cases "os = []") auto
next
  case (3 b x os)
  show ?case
  proof (cases "length b + 1 = 5 \<or> os = []")
    case True
    with "3.IH"(1) [OF True] "3.prems" show ?thesis
      by (cases "os = []") auto
  next
    case False
    then have "length (b @ [x]) < 5" using "3.prems" by simp
    from "3.IH"(2) [OF False this] False show ?thesis by simp
  qed
qed

lemma attempts_sound:
  "(i, t, c) \<in> set (somes (attempts run i0 ts)) \<Longrightarrow>
   i0 \<le> i \<and> i < i0 + length ts \<and> t = ts ! (i - i0) \<and> attempt (run i) t = Some (t, c)"
proof (induction ts arbitrary: i0)
  case Nil
  then show ?case by simp
next
  case (Cons a ts)
  show ?case
  proof (cases "attempt (run i0) a")
    case None
    with Cons.prems have "(i, t, c) \<in> set (somes (attempts run (Suc i0) ts))" by simp
    from Cons.IH [OF this] show ?thesis by (auto simp: Suc_diff_le)
  next
    case (Some x)
    then have x: "x = (a, snd x)" by (auto simp: attempt_Some_iff)
    from Cons.prems Some consider "(i, t, c) = (i0, x)"
      | "(i, t, c) \<in> set (somes (attempts run (Suc i0) ts))" by auto
    then show ?thesis
    proof cases
      case 1
      with x Some show ?thesis by (cases x) auto
    next
      case 2
      from Cons.IH [OF this] show ?thesis by (auto simp: Suc_diff_le)
    qed
  qed
qed

lemma attempts_sorted:
  "sorted_wrt (<) (map fst (somes (attempts run i0 ts)))"
proof (induction ts arbitrary: i0)
  case Nil
  then show ?case by simp
next
  case (Cons a ts)
  have "\<forall>x\<in>set (somes (attempts run (Suc i0) ts)). i0 < fst x"
    using attempts_sound [of _ _ _ run "Suc i0" ts] by fastforce
  with Cons [of "Suc i0"] show ?case
    by (cases "attempt (run i0) a") auto
qed

section \<open>Reading the written files; an example run\<close>

lemma groups_example:
  "groups [5959, 5961, 6335, 6524, 4593, 5603] (stub_cast [] []) =
     [[(0, 5959, py ''0x5959''), (1, 5961, py ''0x5961''), (2, 6335, py ''0x6335''),
       (3, 6524, py ''0x6524''), (4, 4593, py ''0x4593'')],
      [(5, 5603, py ''0x5603'')]]"
  by (simp add: groups_def attempt_def generate_calldata_def stub_cast_def cast_argv_def
      str_int_def digits.simps strip_def isspace_def py_def)

lemma written_example:
  assumes "main [5959, 5961, 6335, 6524, 4593, 5603] (stub_cast [] []) = Inr s"
  shows "written s =
     [file_of [(5959, py ''0x5959''), (5961, py ''0x5961''), (6335, py ''0x6335''),
               (6524, py ''0x6524''), (4593, py ''0x4593'')],
      file_of [(5603, py ''0x5603'')]]"
  using assms main_groups [of "[5959, 5961, 6335, 6524, 4593, 5603]" "stub_cast [] []"]
  by (simp add: groups_example)

lemma field_chainId: "field (py ''chainId'') (snd (file_of g)) = Some (JStr (py ''43114''))"
  by (simp add: file_of_def batch_json_def field_def)

lemma field_transactions:
  "field (py ''transactions'') (snd (file_of g)) = Some (JArr (map (tx_entry \<circ> snd) g))"
  by (simp add: file_of_def batch_json_def field_def py_def)

lemma field_tx_entry:
  "field (py ''to'') (tx_entry c) = Some (JStr pharaoh_loan)"
  "field (py ''value'') (tx_entry c) = Some (JStr (py ''0''))"
  "field (py ''data'') (tx_entry c) = Some (JStr c)"
  by (simp_all add: tx_entry_def field_def py_def)

lemma attempt_stub_example:
  "attempt (stub_cast [] [] i) 5959 = Some (5959, py ''0x5959'')"
  "attempt (stub_cast [] [] i) 5961 = Some (5961, py ''0x5961'')"
  "attempt (stub_cast [] [] i) 6335 = Some (6335, py ''0x6335'')"
  "attempt (stub_cast [] [] i) 6524 = Some (6524, py ''0x6524'')"
  "attempt (stub_cast [] [] i) 4593 = Some (4593, py ''0x4593'')"
  "attempt (stub_cast [] [] i) 5603 = Some (5603, py ''0x5603'')"
  by (simp_all add: attempt_def generate_calldata_def stub_cast_def cast_argv_def
      str_int_def digits.simps strip_def isspace_def py_def)

lemma attempts_fun_upd:
  "(i0 \<le> i \<and> i < i0 + length ts \<longrightarrow> attempt r (ts ! (i - i0)) = attempt (run i) (ts ! (i - i0)))
   \<Longrightarrow> attempts (run(i := r)) i0 ts = attempts run i0 ts"
proof (induction ts arbitrary: i0)
  case Nil
  then show ?case by simp
next
  case (Cons a ts)
  have tl: "attempts (run(i := r)) (Suc i0) ts = attempts run (Suc i0) ts"
  proof (intro Cons.IH impI)
    assume a: "Suc i0 \<le> i \<and> i < Suc i0 + length ts"
    then have "i - i0 = Suc (i - Suc i0)" by linarith
    then have "(a # ts) ! (i - i0) = ts ! (i - Suc i0)"
      by (simp only: nth_Cons_Suc)
    with Cons.prems a show "attempt r (ts ! (i - Suc i0)) = attempt (run i) (ts ! (i - Suc i0))"
      by auto
  qed
  have hd: "attempt ((run(i := r)) i0) a = attempt (run i0) a"
    using Cons.prems by (cases "i = i0") simp_all
  show ?case
    by (simp only: attempts.simps hd tl)
qed

lemma groups_concat:
  "\<exists>rest. somes (attempts run 0 tids) = concat (groups tids run) @ rest"
  using batches_concat [of "[]" "attempts run 0 tids"] by (auto simp: groups_def)

lemma groups_items:
  assumes "g \<in> set (groups tids run)" "(p, t, c) \<in> set g"
  shows "p < length tids \<and> t = tids ! p \<and>
         (\<exists>stdout. run p (cast_argv t) = Completed stdout \<and> strip stdout \<noteq> [] \<and>
            c = strip stdout)"
proof -
  obtain rest where "somes (attempts run 0 tids) = concat (groups tids run) @ rest"
    using groups_concat by blast
  with assms have "(p, t, c) \<in> set (somes (attempts run 0 tids))" by auto
  from attempts_sound [OF this] show ?thesis
    by (auto simp: attempt_Some_iff)
qed

lemma groups_sorted: "sorted_wrt (<) (concat (map (map fst) (groups tids run)))"
proof -
  obtain rest where r: "somes (attempts run 0 tids) = concat (groups tids run) @ rest"
    using groups_concat by blast
  have "sorted_wrt (<) (map fst (concat (groups tids run) @ rest))"
    using attempts_sorted [of run 0 tids] by (simp only: r)
  then show ?thesis
    by (simp add: sorted_wrt_append map_concat)
qed

lemma body_ok:
  assumes "batch_ok s"
  shows "\<exists>s'. body run n i t s = Inr s' \<and> batch_ok s'"
proof (cases "attempt run t")
  case None
  then obtain ls where "body run n i t s = Inr (s\<lparr>out := out s @ ls\<rparr>)"
    using body_skip by blast
  with assms show ?thesis by (simp add: batch_ok_def)
next
  case (Some x)
  have len: "length (batch_token_ids s) = length (batch_calldatas s)"
    and lt: "length (batch_token_ids s) < 5"
    using assms by (simp_all add: batch_ok_def)
  show ?thesis
  proof (cases "length (batch_token_ids s) + 1 = 5 \<or> int i = int n - 1")
    case True
    from body_flush [OF Some len True] show ?thesis by (simp add: batch_ok_def)
  next
    case False
    then have "length (batch_token_ids s) + 1 \<noteq> 5" "int i \<noteq> int n - 1" by simp_all
    from body_keep [OF Some len this] len lt this(1) show ?thesis
      by (simp add: batch_ok_def)
  qed
qed

lemma loop_ok:
  "batch_ok s \<Longrightarrow> \<exists>s'. loop run n i ts s = Inr s' \<and> batch_ok s'"
proof (induction ts arbitrary: i s)
  case Nil
  then show ?case by simp
next
  case (Cons t ts)
  from body_ok [OF Cons.prems] obtain s1 where
    "body (run i) n i t s = Inr s1" "batch_ok s1" by blast
  with Cons.IH [of s1 "Suc i"] show ?case by simp
qed

lemma loop_append:
  "loop run n i (xs @ ys) s =
     (case loop run n i xs s of Inl e \<Rightarrow> Inl e | Inr s' \<Rightarrow> loop run n (i + length xs) ys s')"
  by (induction xs arbitrary: i s) (simp_all split: sum.splits)

text \<open>
  The number of files of a run: the successfully processed token IDs in fives, rounded up
  when the last element of the list is processed successfully and down when it is not.
\<close>

lemma file_count_of_run:
  "\<exists>s. main tids run = Inr s \<and> file_count s = length (written s) \<and>
     length (written s) =
       (if tids \<noteq> [] \<and> attempt (run (length tids - 1)) (last tids) \<noteq> None
        then (length (somes (attempts run 0 tids)) + 4) div 5
        else length (somes (attempts run 0 tids)) div 5)"
proof -
  obtain s where s: "main tids run = Inr s"
    "written s = map (file_of \<circ> map snd) (groups tids run)"
    "file_count s = length (groups tids run)"
    using main_groups by blast
  have l: "last (attempts run i ts) \<noteq> None \<longleftrightarrow> attempt (run (i + length ts - 1)) (last ts) \<noteq> None"
    if "ts \<noteq> []" for i ts
    using that by (induction ts arbitrary: i) (auto simp: attempts_Nil_iff)
  have "length (groups tids run) =
       (if tids \<noteq> [] \<and> attempt (run (length tids - 1)) (last tids) \<noteq> None
        then (length (somes (attempts run 0 tids)) + 4) div 5
        else length (somes (attempts run 0 tids)) div 5)"
    using batches_count [of "[]" "attempts run 0 tids"] l [of tids 0]
    by (auto simp: groups_def attempts_Nil_iff)
  with s show ?thesis by simp
qed

text \<open>
  The entries that are written. Every written file \<open>k\<close> comes with the input positions
  \<open>ps ! k\<close> of its tokens, increasing through the run: the file name lists the token IDs
  at these positions, and the \<open>data\<close> field of entry \<open>j\<close> is the standard output of the
  call made at position \<open>ps ! k ! j\<close> without its leading and trailing whitespace.
\<close>

lemma entry_data_is_stripped_stdout:
  "\<exists>s ps. main tids run = Inr s \<and> length ps = length (written s) \<and>
     sorted_wrt (<) (concat ps) \<and>
     (\<forall>k<length ps. \<exists>txs.
        field (py ''transactions'') (snd (written s ! k)) = Some (JArr txs) \<and>
        length txs = length (ps ! k) \<and>
        fst (written s ! k) =
          py ''migrate_tokens_'' @ join (py ''_'') (map (\<lambda>p. str_int (tids ! p)) (ps ! k)) @
          py ''.json'' \<and>
        (\<forall>j<length txs.
           ps ! k ! j < length tids \<and>
           (\<exists>stdout pre d post.
              run (ps ! k ! j) (cast_argv (tids ! (ps ! k ! j))) = Completed stdout \<and>
              stdout = pre @ d @ post \<and>
              (\<forall>c\<in>set pre. isspace c) \<and> (\<forall>c\<in>set post. isspace c) \<and>
              d \<noteq> [] \<and> \<not> isspace (hd d) \<and> \<not> isspace (last d) \<and>
              field (py ''data'') (txs ! j) = Some (JStr d))))"
proof -
  obtain s where s: "main tids run = Inr s"
    and w: "written s = map (file_of \<circ> map snd) (groups tids run)"
    using main_groups by blast
  let ?G = "groups tids run"
  let ?ps = "map (map fst) ?G"
  have per_file: "\<exists>txs.
        field (py ''transactions'') (snd (written s ! k)) = Some (JArr txs) \<and>
        length txs = length (?ps ! k) \<and>
        fst (written s ! k) =
          py ''migrate_tokens_'' @ join (py ''_'') (map (\<lambda>p. str_int (tids ! p)) (?ps ! k)) @
          py ''.json'' \<and>
        (\<forall>j<length txs.
           ?ps ! k ! j < length tids \<and>
           (\<exists>stdout pre d post.
              run (?ps ! k ! j) (cast_argv (tids ! (?ps ! k ! j))) = Completed stdout \<and>
              stdout = pre @ d @ post \<and>
              (\<forall>c\<in>set pre. isspace c) \<and> (\<forall>c\<in>set post. isspace c) \<and>
              d \<noteq> [] \<and> \<not> isspace (hd d) \<and> \<not> isspace (last d) \<and>
              field (py ''data'') (txs ! j) = Some (JStr d)))"
    if k: "k < length ?ps" for k
  proof -
    let ?g = "?G ! k"
    let ?txs = "map (tx_entry \<circ> snd) (map snd ?g)"
    have kg: "k < length ?G" using k by simp
    then have g: "?g \<in> set ?G" by simp
    have item: "fst x < length tids \<and> fst (snd x) = tids ! fst x \<and>
         (\<exists>stdout. run (fst x) (cast_argv (fst (snd x))) = Completed stdout \<and>
            strip stdout \<noteq> [] \<and> snd (snd x) = strip stdout)" if "x \<in> set ?g" for x
      using groups_items [OF g, of "fst x" "fst (snd x)" "snd (snd x)"] that by auto
    have m: "map (\<lambda>x. str_int (fst (snd x))) ?g = map (\<lambda>x. str_int (tids ! fst x)) ?g"
      by (rule map_cong) (simp_all add: item)
    have name: "fst (written s ! k) =
          py ''migrate_tokens_'' @ join (py ''_'') (map (\<lambda>p. str_int (tids ! p)) (?ps ! k)) @
          py ''.json''"
      using kg by (simp add: w file_of_def batch_filename_def comp_def m)
    have tr: "field (py ''transactions'') (snd (written s ! k)) = Some (JArr ?txs)"
      using kg by (simp add: w field_transactions)
    have len: "length ?txs = length (?ps ! k)" using kg by simp
    have entry: "?ps ! k ! j < length tids \<and>
           (\<exists>stdout pre d post.
              run (?ps ! k ! j) (cast_argv (tids ! (?ps ! k ! j))) = Completed stdout \<and>
              stdout = pre @ d @ post \<and>
              (\<forall>c\<in>set pre. isspace c) \<and> (\<forall>c\<in>set post. isspace c) \<and>
              d \<noteq> [] \<and> \<not> isspace (hd d) \<and> \<not> isspace (last d) \<and>
              field (py ''data'') (?txs ! j) = Some (JStr d))"
      if j: "j < length ?txs" for j
    proof -
      have jg: "j < length ?g" using j by simp
      then have "?g ! j \<in> set ?g" by simp
      from item [OF this] obtain stdout where p: "fst (?g ! j) < length tids"
        and t: "fst (snd (?g ! j)) = tids ! fst (?g ! j)"
        and r: "run (fst (?g ! j)) (cast_argv (fst (snd (?g ! j)))) = Completed stdout"
        and ne: "strip stdout \<noteq> []" and c: "snd (snd (?g ! j)) = strip stdout"
        by blast
      from strip_spec [of stdout] ne obtain pre post where sp:
        "stdout = pre @ strip stdout @ post" "\<forall>c\<in>set pre. isspace c"
        "\<forall>c\<in>set post. isspace c" "\<not> isspace (hd (strip stdout))"
        "\<not> isspace (last (strip stdout))"
        by blast
      have pos: "?ps ! k ! j = fst (?g ! j)" using jg kg by simp
      have dat: "field (py ''data'') (?txs ! j) = Some (JStr (strip stdout))"
        using jg c by (simp add: field_tx_entry)
      have run: "run (?ps ! k ! j) (cast_argv (tids ! (?ps ! k ! j))) = Completed stdout"
        using r t by (simp only: pos)
      from p pos have "?ps ! k ! j < length tids" by simp
      with run sp ne dat show ?thesis by blast
    qed
    from tr len name entry show ?thesis by blast
  qed
  have "length ?ps = length (written s)" by (simp add: w)
  moreover have "sorted_wrt (<) (concat ?ps)" by (rule groups_sorted)
  ultimately show ?thesis using s per_file by blast
qed

section \<open>Runs in which the last call fails\<close>

lemma attempt_stub_failing: "attempt (stub_cast [i] [] i) t = None"
  by (simp add: attempt_def generate_calldata_def stub_cast_def)

lemma groups_last_fails:
  "groups [5959, 5961, 6335, 6524, 4593, 5603, 5597] (stub_cast [6] []) =
     [[(0, 5959, py ''0x5959''), (1, 5961, py ''0x5961''), (2, 6335, py ''0x6335''),
       (3, 6524, py ''0x6524''), (4, 4593, py ''0x4593'')]]"
  by (simp add: groups_def attempt_def generate_calldata_def stub_cast_def cast_argv_def
      str_int_def digits.simps strip_def isspace_def py_def)

lemma filename_example:
  "batch_filename [5959, 5961, 6335, 6524, 4593] = py ''migrate_tokens_5959_5961_6335_6524_4593.json''"
  by (simp add: batch_filename_def str_int_def digits.simps py_def)

lemma real_list_groups:
  "length (groups token_ids (stub_cast [76] [])) = 15"
  by (simp add: groups_def token_ids_def attempt_def generate_calldata_def stub_cast_def
      cast_argv_def str_int_def digits.simps strip_def isspace_def py_def)

lemma real_list_successes:
  "length (somes (attempts (stub_cast [76] []) 0 token_ids)) = 76"
  by (simp add: token_ids_def attempt_def generate_calldata_def stub_cast_def
      cast_argv_def str_int_def digits.simps strip_def isspace_def py_def)

section \<open>Properties of the script\<close>

text \<open>
  C1: the number of files written equals the number of successfully processed token IDs
  divided by five and rounded up. The script breaks this when the last element of the list
  is not processed successfully: at its own list of 77 token IDs, when the call for the
  last one (3383) exits with a non-zero status, 76 token IDs are processed successfully
  and 15 files are written, not 16; the last successful token ID stays in the pending
  batch.
\<close>

theorem last_failure_loses_pending_tokens:
  "map_sum id file_count (main token_ids (stub_cast [76] [])) = Inr 15 \<and>
   map_sum id (length \<circ> written) (main token_ids (stub_cast [76] [])) = Inr 15 \<and>
   length (somes (attempts (stub_cast [76] []) 0 token_ids)) = 76"
proof -
  obtain s where "main token_ids (stub_cast [76] []) = Inr s"
    "written s = map (file_of \<circ> map snd) (groups token_ids (stub_cast [76] []))"
    "file_count s = length (groups token_ids (stub_cast [76] []))"
    using main_groups by blast
  then show ?thesis
    by (simp add: real_list_groups real_list_successes)
qed

text \<open>
  C2, as the loop has it: at an iteration whose call-data generation succeeds, a batch file
  is emitted exactly when the batch, with this token, holds five token IDs or the
  iteration is at the final element of the input list, and an emitted file holds between
  1 and 5 transactions; at an iteration whose generation fails, no file is emitted when
  the iteration is not the final one or no token is pending. The state \<open>s\<close> is the one
  the loop of \<open>main\<close> has reached before iteration \<open>i\<close>, and the loop goes on from \<open>s'\<close>.
\<close>

theorem batch_file_emitted_when:
  assumes "i < length tids"
  shows "\<exists>s s'. loop run (length tids) 0 (take i tids) (init tids) = Inr s \<and>
           body (run i) (length tids) i (tids ! i) s = Inr s' \<and>
           loop run (length tids) 0 tids (init tids) =
             loop run (length tids) (Suc i) (drop (Suc i) tids) s' \<and>
           (attempt (run i) (tids ! i) \<noteq> None \<longrightarrow>
              (if length (batch_token_ids s) + 1 = 5 \<or> Suc i = length tids
               then \<exists>f txs. written s' = written s @ [f] \<and>
                      field (py ''transactions'') (snd f) = Some (JArr txs) \<and>
                      length txs = length (batch_token_ids s) + 1 \<and>
                      1 \<le> length txs \<and> length txs \<le> 5
               else written s' = written s)) \<and>
           (attempt (run i) (tids ! i) = None \<and> (Suc i \<noteq> length tids \<or> batch_token_ids s = []) \<longrightarrow>
              written s' = written s)"
proof -
  let ?n = "length tids"
  have "batch_ok (init tids)" by (simp add: batch_ok_def init_def)
  from loop_ok [OF this] obtain s where
    s: "loop run ?n 0 (take i tids) (init tids) = Inr s" and ok: "batch_ok s" by blast
  from body_ok [OF ok] obtain s' where s': "body (run i) ?n i (tids ! i) s = Inr s'" by blast
  have len: "length (batch_token_ids s) = length (batch_calldatas s)"
    and lt: "length (batch_token_ids s) < 5"
    using ok by (simp_all add: batch_ok_def)
  have "tids = take i tids @ tids ! i # drop (Suc i) tids"
    using assms by (simp add: id_take_nth_drop)
  then have "loop run ?n 0 tids (init tids) =
      loop run ?n 0 (take i tids @ tids ! i # drop (Suc i) tids) (init tids)"
    by simp
  also have "\<dots> = loop run ?n (Suc i) (drop (Suc i) tids) s'"
    using assms s s' by (simp add: loop_append min_absorb2)
  finally have cont: "loop run ?n 0 tids (init tids) =
      loop run ?n (Suc i) (drop (Suc i) tids) s'" .
  have fin: "int i = int ?n - 1 \<longleftrightarrow> Suc i = ?n" by auto
  have succ: "if length (batch_token_ids s) + 1 = 5 \<or> Suc i = ?n
               then \<exists>f txs. written s' = written s @ [f] \<and>
                      field (py ''transactions'') (snd f) = Some (JArr txs) \<and>
                      length txs = length (batch_token_ids s) + 1 \<and>
                      1 \<le> length txs \<and> length txs \<le> 5
               else written s' = written s"
    if "attempt (run i) (tids ! i) \<noteq> None"
  proof -
    from that obtain x where x: "attempt (run i) (tids ! i) = Some x" by blast
    show ?thesis
    proof (cases "length (batch_token_ids s) + 1 = 5 \<or> Suc i = ?n")
      case True
      then have "length (batch_token_ids s) + 1 = 5 \<or> int i = int ?n - 1"
        using fin by simp
      from body_flush [OF x len this] s'
      have w: "written s' = written s @ [file_of (pending s @ [x])]" by auto
      let ?txs = "map (tx_entry \<circ> snd) (pending s @ [x])"
      have "field (py ''transactions'') (snd (file_of (pending s @ [x]))) = Some (JArr ?txs)"
        by (rule field_transactions)
      moreover have "length ?txs = length (batch_token_ids s) + 1"
        using len by (simp add: pending_def)
      moreover have "1 \<le> length ?txs" "length ?txs \<le> 5"
        using len lt by (simp_all add: pending_def)
      ultimately have "\<exists>f txs. written s' = written s @ [f] \<and>
                      field (py ''transactions'') (snd f) = Some (JArr txs) \<and>
                      length txs = length (batch_token_ids s) + 1 \<and>
                      1 \<le> length txs \<and> length txs \<le> 5"
        using w by blast
      with True show ?thesis by (simp only: if_True)
    next
      case False
      then have "length (batch_token_ids s) + 1 \<noteq> 5" "int i \<noteq> int ?n - 1"
        using fin by simp_all
      from body_keep [OF x len this] s' have "written s' = written s" by auto
      with False show ?thesis by (simp only: if_False)
    qed
  qed
  have skip: "written s' = written s" if "attempt (run i) (tids ! i) = None"
  proof -
    from body_skip [OF that, of ?n i s] s' show ?thesis by auto
  qed
  show ?thesis
  proof (intro exI conjI impI)
    show "loop run ?n 0 (take i tids) (init tids) = Inr s" by (rule s)
    show "body (run i) ?n i (tids ! i) s = Inr s'" by (rule s')
    show "loop run ?n 0 tids (init tids) = loop run ?n (Suc i) (drop (Suc i) tids) s'"
      by (rule cont)
    show "if length (batch_token_ids s) + 1 = 5 \<or> Suc i = ?n
               then \<exists>f txs. written s' = written s @ [f] \<and>
                      field (py ''transactions'') (snd f) = Some (JArr txs) \<and>
                      length txs = length (batch_token_ids s) + 1 \<and>
                      1 \<le> length txs \<and> length txs \<le> 5
               else written s' = written s"
      if "attempt (run i) (tids ! i) \<noteq> None"
      using that by (rule succ)
    show "written s' = written s"
      if "attempt (run i) (tids ! i) = None \<and> (Suc i \<noteq> length tids \<or> batch_token_ids s = [])"
      using that skip by blast
  qed
qed

text \<open>
  Two iterations: the sixth token of the example run, which is the final element, and the
  only token of a one-element list, whose generation fails.
\<close>

theorem batch_file_emitted_when_witness:
  "(5::nat) < length [5959, 5961, 6335, 6524, 4593, 5603 :: int] \<and>
   attempt (stub_cast [] [] 5) ([5959, 5961, 6335, 6524, 4593, 5603] ! 5) \<noteq> None \<and>
   Suc 5 = length [5959, 5961, 6335, 6524, 4593, 5603 :: int] \<and>
   (\<exists>s s' f txs.
      loop (stub_cast [] []) (length [5959, 5961, 6335, 6524, 4593, 5603 :: int]) 0
        (take 5 [5959, 5961, 6335, 6524, 4593, 5603])
        (init [5959, 5961, 6335, 6524, 4593, 5603]) = Inr s \<and>
      body (stub_cast [] [] 5) (length [5959, 5961, 6335, 6524, 4593, 5603 :: int]) 5
        ([5959, 5961, 6335, 6524, 4593, 5603] ! 5) s = Inr s' \<and>
      written s' = written s @ [f] \<and>
      field (py ''transactions'') (snd f) = Some (JArr txs) \<and>
      1 \<le> length txs \<and> length txs \<le> 5) \<and>
   (0::nat) < length [5959 :: int] \<and>
   attempt (stub_cast [0] [] 0) ([5959] ! 0) = None \<and>
   (\<exists>s s'. loop (stub_cast [0] []) (length [5959 :: int]) 0 (take 0 [5959]) (init [5959]) = Inr s \<and>
      batch_token_ids s = [] \<and>
      body (stub_cast [0] [] 0) (length [5959 :: int]) 0 ([5959] ! 0) s = Inr s' \<and>
      written s' = written s)"
proof -
  let ?ids = "[5959, 5961, 6335, 6524, 4593, 5603] :: int list"
  have h1: "(5::nat) < length ?ids" by simp
  have h2: "attempt (stub_cast [] [] 5) (?ids ! 5) \<noteq> None"
    by (simp add: attempt_stub_example)
  have h3: "Suc 5 = length ?ids" by simp
  from batch_file_emitted_when [OF h1, of "stub_cast [] []"]
  obtain s s' where a:
    "loop (stub_cast [] []) (length ?ids) 0 (take 5 ?ids) (init ?ids) = Inr s"
    "body (stub_cast [] [] 5) (length ?ids) 5 (?ids ! 5) s = Inr s'"
    "attempt (stub_cast [] [] 5) (?ids ! 5) \<noteq> None \<longrightarrow>
       (if length (batch_token_ids s) + 1 = 5 \<or> Suc 5 = length ?ids
        then \<exists>f txs. written s' = written s @ [f] \<and>
               field (py ''transactions'') (snd f) = Some (JArr txs) \<and>
               length txs = length (batch_token_ids s) + 1 \<and>
               1 \<le> length txs \<and> length txs \<le> 5
        else written s' = written s)"
    by blast
  from a(3) h2 h3 have "\<exists>f txs. written s' = written s @ [f] \<and>
               field (py ''transactions'') (snd f) = Some (JArr txs) \<and>
               length txs = length (batch_token_ids s) + 1 \<and>
               1 \<le> length txs \<and> length txs \<le> 5"
    by (simp only: if_True simp_thms)
  then obtain f txs where b: "written s' = written s @ [f]"
    "field (py ''transactions'') (snd f) = Some (JArr txs)" "1 \<le> length txs" "length txs \<le> 5"
    by blast
  have first: "\<exists>s s' f txs.
      loop (stub_cast [] []) (length ?ids) 0 (take 5 ?ids) (init ?ids) = Inr s \<and>
      body (stub_cast [] [] 5) (length ?ids) 5 (?ids ! 5) s = Inr s' \<and>
      written s' = written s @ [f] \<and>
      field (py ''transactions'') (snd f) = Some (JArr txs) \<and>
      1 \<le> length txs \<and> length txs \<le> 5"
    using a(1,2) b by blast
  have k1: "(0::nat) < length [5959 :: int]" by simp
  have k2: "attempt (stub_cast [0] [] 0) ([5959] ! 0) = None"
    by (simp add: attempt_stub_failing)
  from batch_file_emitted_when [OF k1, of "stub_cast [0] []"]
  obtain t t' where c:
    "loop (stub_cast [0] []) (length [5959 :: int]) 0 (take 0 [5959]) (init [5959]) = Inr t"
    "body (stub_cast [0] [] 0) (length [5959 :: int]) 0 ([5959] ! 0) t = Inr t'"
    "attempt (stub_cast [0] [] 0) ([5959] ! 0) = None \<and>
       (Suc 0 \<noteq> length [5959 :: int] \<or> batch_token_ids t = []) \<longrightarrow> written t' = written t"
    by blast
  from c(1) have t: "t = init [5959]" by simp
  then have e: "batch_token_ids t = []" by (simp add: init_def)
  with c(3) k2 have "written t' = written t" by blast
  with c(1,2) e have second:
    "\<exists>s s'. loop (stub_cast [0] []) (length [5959 :: int]) 0 (take 0 [5959]) (init [5959]) = Inr s \<and>
      batch_token_ids s = [] \<and>
      body (stub_cast [0] [] 0) (length [5959 :: int]) 0 ([5959] ! 0) s = Inr s' \<and>
      written s' = written s"
    by blast
  from h1 h2 h3 first k1 k2 second show ?thesis by blast
qed

text \<open>
  C2 as stated fails: with the single token ID 5959 and a failing call, the loop is at the
  final element of the input list and no file is emitted.
\<close>

theorem no_file_at_failing_final_element:
  "map_sum id written (body (stub_cast [0] [] 0) 1 0 5959 (init [5959])) = Inr [] \<and>
   map_sum id written (main [5959] (stub_cast [0] [])) = Inr [] \<and>
   map_sum id file_count (main [5959] (stub_cast [0] [])) = Inr 0"
proof -
  have h: "stub_cast [0] [] 0 (cast_argv 5959) = CalledProcessError (py ''non-zero exit status 1'')"
    by (simp add: stub_cast_def)
  show ?thesis
    by (simp add: main_def body_failed [where run = "stub_cast [0] [] 0" and t = 5959, OF h]
        init_def print_def)
qed

text \<open>
  C3: a token ID whose generation fails is in no file, and the successful token IDs are
  partitioned, in input order, into the written batches. The script breaks the second
  part when the last element fails: at seven token IDs of which the last fails, the
  sixth, 5603, is processed successfully, and the only file written holds the first five;
  5603 is in no batch.
\<close>

theorem successful_token_in_no_file:
  "attempt (stub_cast [6] [] 5) 5603 = Some (5603, py ''0x5603'') \<and>
   map_sum id (map fst \<circ> written)
     (main [5959, 5961, 6335, 6524, 4593, 5603, 5597] (stub_cast [6] [])) =
     Inr [py ''migrate_tokens_5959_5961_6335_6524_4593.json''] \<and>
   map_sum id (map (field (py ''transactions'') \<circ> snd) \<circ> written)
     (main [5959, 5961, 6335, 6524, 4593, 5603, 5597] (stub_cast [6] [])) =
     Inr [Some (JArr (map tx_entry
            [py ''0x5959'', py ''0x5961'', py ''0x6335'', py ''0x6524'', py ''0x4593'']))]"
proof -
  obtain s where "main [5959, 5961, 6335, 6524, 4593, 5603, 5597] (stub_cast [6] []) = Inr s"
    "written s = map (file_of \<circ> map snd)
       (groups [5959, 5961, 6335, 6524, 4593, 5603, 5597] (stub_cast [6] []))"
    using main_groups by blast
  moreover have "attempt (stub_cast [6] [] 5) 5603 = Some (5603, py ''0x5603'')"
    by (simp add: attempt_def generate_calldata_def stub_cast_def cast_argv_def
      str_int_def digits.simps strip_def isspace_def py_def)
  ultimately show ?thesis
    by (simp add: groups_last_fails file_of_def filename_example field_def batch_json_def py_def)
qed

text \<open>
  C4: every output file written by a run contains between 1 and 5 transaction entries, and
  a file with fewer than 5 entries is the last file written in that run.
\<close>

theorem batch_sizes:
  "\<exists>s. main tids run = Inr s \<and>
     (\<forall>k<length (written s). \<exists>txs.
        field (py ''transactions'') (snd (written s ! k)) = Some (JArr txs) \<and>
        1 \<le> length txs \<and> length txs \<le> 5 \<and>
        (length txs < 5 \<longrightarrow> Suc k = length (written s)))"
proof -
  obtain s where s: "main tids run = Inr s"
    and w: "written s = map (file_of \<circ> map snd) (groups tids run)"
    using main_groups by blast
  have "\<exists>txs. field (py ''transactions'') (snd (written s ! k)) = Some (JArr txs) \<and>
        1 \<le> length txs \<and> length txs \<le> 5 \<and>
        (length txs < 5 \<longrightarrow> Suc k = length (written s))" if k: "k < length (written s)" for k
  proof -
    let ?g = "groups tids run ! k"
    have kg: "k < length (groups tids run)" using k w by simp
    then have "?g \<in> set (batches [] (attempts run 0 tids))"
      by (simp add: groups_def)
    then have "1 \<le> length ?g \<and> length ?g \<le> 5"
      using batches_lengths [of "[]"] by simp
    moreover have "length ?g < 5 \<longrightarrow> Suc k = length (groups tids run)"
      using batches_short_last [of "[]" k "attempts run 0 tids"] kg by (simp add: groups_def)
    moreover have "field (py ''transactions'') (snd (written s ! k)) =
        Some (JArr (map (tx_entry \<circ> snd) (map snd ?g)))"
      using kg by (simp add: w field_transactions)
    ultimately show ?thesis using w by simp
  qed
  with s show ?thesis by blast
qed

text \<open>The example run: its second file holds one entry and is the last.\<close>

theorem batch_sizes_witness:
  "\<exists>s. main [5959, 5961, 6335, 6524, 4593, 5603] (stub_cast [] []) = Inr s \<and>
     1 < length (written s) \<and>
     (\<exists>txs. field (py ''transactions'') (snd (written s ! 1)) = Some (JArr txs) \<and>
        1 \<le> length txs \<and> length txs \<le> 5 \<and> length txs < 5 \<and> Suc 1 = length (written s))"
proof -
  obtain s where s: "main [5959, 5961, 6335, 6524, 4593, 5603] (stub_cast [] []) = Inr s"
    and c: "\<forall>k<length (written s). \<exists>txs.
        field (py ''transactions'') (snd (written s ! k)) = Some (JArr txs) \<and>
        1 \<le> length txs \<and> length txs \<le> 5 \<and>
        (length txs < 5 \<longrightarrow> Suc k = length (written s))"
    using batch_sizes [of "[5959, 5961, 6335, 6524, 4593, 5603]" "stub_cast [] []"] by blast
  note w = written_example [OF s]
  have l: "1 < length (written s)" by (simp add: w)
  with c obtain txs where txs: "field (py ''transactions'') (snd (written s ! 1)) = Some (JArr txs)"
    "1 \<le> length txs" "length txs \<le> 5" "length txs < 5 \<longrightarrow> Suc 1 = length (written s)"
    by blast
  from txs(1) have "length txs < 5" by (auto simp: w field_transactions)
  with s l txs show ?thesis by blast
qed

text \<open>
  C5: in every transaction entry of every output file, the \<open>value\<close> field is the string
  \<open>0\<close> and the \<open>to\<close> field is the loan contract address
  \<open>0xf6A044c3b2a3373eF2909E2474f3229f23279B5F\<close>.
\<close>

theorem value_and_to_of_every_entry:
  "\<exists>s. main tids run = Inr s \<and>
     (\<forall>f\<in>set (written s). \<exists>txs.
        field (py ''transactions'') (snd f) = Some (JArr txs) \<and>
        (\<forall>tx\<in>set txs.
           field (py ''value'') tx = Some (JStr (py ''0'')) \<and>
           field (py ''to'') tx = Some (JStr (py ''0xf6A044c3b2a3373eF2909E2474f3229f23279B5F''))))"
proof -
  obtain s where "main tids run = Inr s" "written s = map (file_of \<circ> map snd) (groups tids run)"
    using main_groups by blast
  then show ?thesis
    by (auto simp: field_transactions field_tx_entry pharaoh_loan_def)
qed

text \<open>The example run: the five entries of its first file.\<close>

theorem value_and_to_of_every_entry_witness:
  "\<exists>s. main [5959, 5961, 6335, 6524, 4593, 5603] (stub_cast [] []) = Inr s \<and>
     written s \<noteq> [] \<and>
     (\<exists>txs. field (py ''transactions'') (snd (hd (written s))) = Some (JArr txs) \<and>
        length txs = 5 \<and>
        (\<forall>tx\<in>set txs.
           field (py ''value'') tx = Some (JStr (py ''0'')) \<and>
           field (py ''to'') tx = Some (JStr (py ''0xf6A044c3b2a3373eF2909E2474f3229f23279B5F''))))"
proof -
  obtain s where s: "main [5959, 5961, 6335, 6524, 4593, 5603] (stub_cast [] []) = Inr s"
    and c: "\<forall>f\<in>set (written s). \<exists>txs.
        field (py ''transactions'') (snd f) = Some (JArr txs) \<and>
        (\<forall>tx\<in>set txs.
           field (py ''value'') tx = Some (JStr (py ''0'')) \<and>
           field (py ''to'') tx = Some (JStr (py ''0xf6A044c3b2a3373eF2909E2474f3229f23279B5F'')))"
    using value_and_to_of_every_entry [of "[5959, 5961, 6335, 6524, 4593, 5603]" "stub_cast [] []"]
    by blast
  note w = written_example [OF s]
  have ne: "written s \<noteq> []" by (simp add: w)
  then have "hd (written s) \<in> set (written s)" by simp
  with c obtain txs where txs: "field (py ''transactions'') (snd (hd (written s))) = Some (JArr txs)"
    "\<forall>tx\<in>set txs.
           field (py ''value'') tx = Some (JStr (py ''0'')) \<and>
           field (py ''to'') tx = Some (JStr (py ''0xf6A044c3b2a3373eF2909E2474f3229f23279B5F''))"
    by blast
  from txs(1) have "length txs = 5" by (auto simp: w field_transactions)
  with s ne txs show ?thesis by blast
qed

text \<open>
  C6: when the external tool exits with a non-zero status for a token ID, the failure is
  reported (by \<open>generate_calldata\<close> and by the loop), the token ID joins no batch, the
  files written so far and the counter are left as they are, and the loop goes on with the
  remaining token IDs.
\<close>

theorem failed_generation_is_logged_and_skipped:
  assumes "run i (cast_argv t) = CalledProcessError e"
  shows "\<exists>s'. body (run i) n i t s = Inr s' \<and>
           loop run n i (t # rest) s = loop run n (Suc i) rest s' \<and>
           s' = s\<lparr>out := out s @
                  [processing_line n i t,
                   py ''Error generating calldata for token '' @ str_int t @ py '': '' @ e,
                   py ''Failed to generate calldata for token '' @ str_int t @
                     py '', skipping...'']\<rparr> \<and>
           written s' = written s \<and> file_count s' = file_count s \<and>
           batch_token_ids s' = batch_token_ids s \<and> batch_calldatas s' = batch_calldatas s"
  using body_failed [of "run i" t e n i s] assms
  by (simp add: error_line_def skipping_line_def)

text \<open>A failing call in the middle of a run: the file written before is still there.\<close>

theorem failed_generation_is_logged_and_skipped_witness:
  "stub_cast [6] [] 6 (cast_argv 5597) = CalledProcessError (py ''non-zero exit status 1'') \<and>
   (\<exists>s'. body (stub_cast [6] [] 6) 8 6 5597 mid_run = Inr s' \<and>
      loop (stub_cast [6] []) 8 6 [5597, 4613] mid_run = loop (stub_cast [6] []) 8 7 [4613] s' \<and>
      written s' = written mid_run \<and> written s' \<noteq> [] \<and>
      batch_token_ids s' = [5603] \<and> file_count s' = 1)"
proof -
  have h: "stub_cast [6] [] 6 (cast_argv 5597) = CalledProcessError (py ''non-zero exit status 1'')"
    by (simp add: stub_cast_def)
  from failed_generation_is_logged_and_skipped
    [where run = "stub_cast [6] []" and i = 6 and n = 8 and s = mid_run and rest = "[4613]", OF h]
  obtain s' where "body (stub_cast [6] [] 6) 8 6 5597 mid_run = Inr s'"
    "loop (stub_cast [6] []) 8 6 [5597, 4613] mid_run = loop (stub_cast [6] []) 8 (Suc 6) [4613] s'"
    "written s' = written mid_run" "file_count s' = file_count mid_run"
    "batch_token_ids s' = batch_token_ids mid_run"
    by blast
  then show ?thesis using h by (auto simp: mid_run_def)
qed



text \<open>
  C8: the top-level \<open>chainId\<close> field of every output file is the string \<open>43114\<close>,
  for every batch of every run.
\<close>

theorem chain_id_of_every_file:
  "\<exists>s. main tids run = Inr s \<and>
     (\<forall>f\<in>set (written s). field (py ''chainId'') (snd f) = Some (JStr (py ''43114'')))"
proof -
  obtain s where "main tids run = Inr s" "written s = map (file_of \<circ> map snd) (groups tids run)"
    using main_groups by blast
  then show ?thesis by (auto simp: field_chainId)
qed

text \<open>The example run writes two files.\<close>

theorem chain_id_of_every_file_witness:
  "\<exists>s. main [5959, 5961, 6335, 6524, 4593, 5603] (stub_cast [] []) = Inr s \<and>
     length (written s) = 2 \<and>
     (\<forall>f\<in>set (written s). field (py ''chainId'') (snd f) = Some (JStr (py ''43114'')))"
proof -
  obtain s where s: "main [5959, 5961, 6335, 6524, 4593, 5603] (stub_cast [] []) = Inr s"
    and c: "\<forall>f\<in>set (written s). field (py ''chainId'') (snd f) = Some (JStr (py ''43114''))"
    using chain_id_of_every_file [of "[5959, 5961, 6335, 6524, 4593, 5603]" "stub_cast [] []"]
    by blast
  have "length (written s) = 2" by (simp add: written_example [OF s])
  with s c show ?thesis by blast
qed

text \<open>
  C9: when the external tool exits successfully and its standard output is empty or only
  whitespace, the token ID is skipped like one whose generation failed: the iteration
  only prints, and the whole run writes the same files as the run in which that call
  exits with a non-zero status.
\<close>

theorem blank_output_is_treated_as_failure:
  assumes "i < length tids" "run i (cast_argv (tids ! i)) = Completed stdout"
    "\<forall>c\<in>set stdout. isspace c"
  shows "body (run i) n i (tids ! i) s =
           Inr (s\<lparr>out := out s @
                  [processing_line n i (tids ! i),
                   py ''Failed to generate calldata for token '' @ str_int (tids ! i) @
                     py '', skipping...'']\<rparr>) \<and>
         (\<exists>s1 s2. main tids run = Inr s1 \<and>
            main tids (run(i := \<lambda>argv. CalledProcessError e)) = Inr s2 \<and>
            written s1 = written s2 \<and> file_count s1 = file_count s2)"
proof -
  have b: "strip stdout = []" using assms(3) by (simp add: strip_Nil_iff)
  let ?run' = "run(i := \<lambda>argv. CalledProcessError e)"
  have "attempt (\<lambda>argv. CalledProcessError e) (tids ! i) = attempt (run i) (tids ! i)"
    using assms(2) b by (simp add: attempt_def generate_calldata_def)
  then have "attempts ?run' 0 tids = attempts run 0 tids"
    by (intro attempts_fun_upd) simp
  then have g: "groups tids ?run' = groups tids run" by (simp add: groups_def)
  obtain s1 where s1: "main tids run = Inr s1"
    "written s1 = map (file_of \<circ> map snd) (groups tids run)"
    "file_count s1 = length (groups tids run)"
    using main_groups by blast
  obtain s2 where s2: "main tids ?run' = Inr s2"
    "written s2 = map (file_of \<circ> map snd) (groups tids ?run')"
    "file_count s2 = length (groups tids ?run')"
    using main_groups by blast
  from s1 s2 g have "\<exists>s1 s2. main tids run = Inr s1 \<and> main tids ?run' = Inr s2 \<and>
            written s1 = written s2 \<and> file_count s1 = file_count s2"
    by simp
  with body_blank [of "run i" "tids ! i" stdout n i s] assms(2) b show ?thesis
    by (simp add: skipping_line_def)
qed

text \<open>A run whose second call prints only a newline.\<close>

theorem blank_output_is_treated_as_failure_witness:
  "(1::nat) < length [5959, 5961 :: int] \<and>
   stub_cast [] [1] 1 (cast_argv ([5959, 5961] ! 1)) = Completed [10] \<and> isspace 10 \<and>
   body (stub_cast [] [1] 1) 2 1 ([5959, 5961] ! 1) mid_run =
     Inr (mid_run\<lparr>out := out mid_run @
            [processing_line 2 1 ([5959, 5961] ! 1),
             py ''Failed to generate calldata for token '' @ str_int ([5959, 5961] ! 1) @
               py '', skipping...'']\<rparr>) \<and>
   (\<exists>s1 s2. main [5959, 5961] (stub_cast [] [1]) = Inr s1 \<and>
      main [5959, 5961]
        ((stub_cast [] [1])(1 := \<lambda>argv. CalledProcessError (py ''non-zero exit status 1''))) = Inr s2 \<and>
      written s1 = written s2 \<and> file_count s1 = file_count s2)"
proof -
  have h1: "(1::nat) < length [5959, 5961 :: int]" by simp
  have h2: "stub_cast [] [1] 1 (cast_argv ([5959, 5961] ! 1)) = Completed [10]"
    by (simp add: stub_cast_def)
  have h3: "\<forall>c\<in>set [10]. isspace c" by (simp add: isspace_def)
  from blank_output_is_treated_as_failure
    [where run = "stub_cast [] [1]" and i = 1 and tids = "[5959, 5961]", OF h1 h2 h3] h1 h2 h3
  show ?thesis
    by simp
qed

text \<open>
  C10: every successfully processed token ID has a transaction entry whose \<open>data\<close> field
  is the standard output of the external tool with leading and trailing whitespace stripped.
  The script breaks this when the last element of the list fails: at seven token IDs of
  which the last fails, the call for the sixth, 5603, prints \<^verbatim>\<open>0x5603\<close> and a newline,
  \<open>generate_calldata\<close> returns \<^verbatim>\<open>0x5603\<close>, and the entries written are those of the
  first five token IDs, each with its stripped output; 5603 has no entry.
\<close>

theorem successful_token_has_no_entry:
  "stub_cast [6] [] 5 (cast_argv 5603) = Completed (py ''0x5603'' @ [10]) \<and>
   fst (generate_calldata (stub_cast [6] [] 5) 5603) = Some (py ''0x5603'') \<and>
   map_sum id (map (map (field (py ''data'')) \<circ> entries \<circ> snd) \<circ> written)
     (main [5959, 5961, 6335, 6524, 4593, 5603, 5597] (stub_cast [6] [])) =
     Inr [[Some (JStr (py ''0x5959'')), Some (JStr (py ''0x5961'')), Some (JStr (py ''0x6335'')),
           Some (JStr (py ''0x6524'')), Some (JStr (py ''0x4593''))]]"
proof -
  obtain s where "main [5959, 5961, 6335, 6524, 4593, 5603, 5597] (stub_cast [6] []) = Inr s"
    "written s = map (file_of \<circ> map snd)
       (groups [5959, 5961, 6335, 6524, 4593, 5603, 5597] (stub_cast [6] []))"
    using main_groups by blast
  moreover have "stub_cast [6] [] 5 (cast_argv 5603) = Completed (py ''0x5603'' @ [10])"
    by (simp add: stub_cast_def cast_argv_def str_int_def digits.simps py_def)
  moreover have "fst (generate_calldata (stub_cast [6] [] 5) 5603) = Some (py ''0x5603'')"
    by (simp add: generate_calldata_def stub_cast_def cast_argv_def
      str_int_def digits.simps strip_def isspace_def py_def)
  ultimately show ?thesis
    by (simp add: groups_last_fails entries_def field_transactions field_tx_entry)
qed

end
